theory Spec2Isabelle
  imports Main "HOL-Library.Word"
begin

section \<open>Data model of libv2ray_support.go\<close>

text \<open>
  A Go \<^verbatim>\<open>net.IP\<close> is a byte slice; the nil slice is the empty list. Go errors are
  opaque values carrying a message. A run-time panic is a value of its own, distinct from
  an error result.
\<close>

type_synonym byte = "8 word"
type_synonym net_IP = "byte list"

datatype error = Error string

datatype go_panic = IndexOutOfRange | CloseOfNilChannel | CloseOfClosedChannel

text \<open>
  \<^verbatim>\<open>time.Time\<close> is an instant counted in nanoseconds from the zero value of the type;
  \<^verbatim>\<open>time.Duration\<close> is a signed 64-bit count of nanoseconds, and \<^verbatim>\<open>Time.Sub\<close>
  saturates at the ends of that range.
\<close>

type_synonym time = int
type_synonym duration = int

definition Second :: duration where
  "Second = 1000000000"

definition maxDuration :: duration where
  "maxDuration = 2 ^ 63 - 1"

definition minDuration :: duration where
  "minDuration = - (2 ^ 63)"

definition Sub :: "time \<Rightarrow> time \<Rightarrow> duration" where
  "Sub t u =
     (if t - u > maxDuration then maxDuration
      else if t - u < minDuration then minDuration
      else t - u)"

text \<open>
  \<^verbatim>\<open>IP.To4\<close> of Go's net package: a 4-byte address is IPv4; a 16-byte address is IPv4
  when it is IPv4-mapped (ten zero bytes, then 0xff 0xff); anything else gives nil.
\<close>

definition To4 :: "net_IP \<Rightarrow> net_IP option" where
  "To4 ip =
     (if length ip = 4 then Some ip
      else if length ip = 16 \<and> list_all (\<lambda>b. b = 0) (take 10 ip)
              \<and> ip ! 10 = 255 \<and> ip ! 11 = 255 then Some (drop 12 ip)
      else None)"

record IPAddr =
  IP :: net_IP
  Zone :: string

text \<open>The struct \<^verbatim>\<open>resolved\<close> (the mutex guards a sequential model and is left out).\<close>

record resolved =
  domain :: string
  IPs :: "net_IP list"
  Port :: int
  ipIdx :: "8 word"
  lastSwitched :: time

text \<open>
  The channel \<^verbatim>\<open>resolveChan\<close> carries no values: all that matters is whether it is
  nil, open or closed.
\<close>

datatype chan = ChanNil | ChanOpen | ChanClosed

record ProtectedDialer =
  currentServer :: string
  resolveChan :: chan
  preferIPv6 :: bool
  vServer :: "resolved option"

text \<open>
  The calls that leave the program. The resolver may answer differently on each call, so
  its lookups take the number of the call; \<^verbatim>\<open>net.SplitHostPort\<close> is a pure function of
  its argument.
\<close>

record net_env =
  SplitHostPort :: "string \<Rightarrow> error + (string \<times> string)"
  LookupPort :: "nat \<Rightarrow> string \<Rightarrow> error + int"
  LookupIPAddr :: "nat \<Rightarrow> string \<Rightarrow> error + IPAddr list"

section \<open>The rotation cursor\<close>

definition uint8 :: "nat \<Rightarrow> 8 word" where
  "uint8 n = of_nat n"

text \<open>
  \<^verbatim>\<open>NextIP\<close>, with the clock reading \<^verbatim>\<open>time.Now()\<close> as an argument. The last
  statement of the Go function reads \<^verbatim>\<open>r.IPs[r.ipIdx]\<close> for the log line; a read out of
  range would panic.
\<close>

definition NextIP :: "resolved \<Rightarrow> time \<Rightarrow> go_panic + resolved" where
  "NextIP r now =
     (if length (IPs r) > 1 then
        (if Sub now (lastSwitched r) < Second * 5 then Inr r
         else
           (let r1 = r\<lparr>lastSwitched := now, ipIdx := ipIdx r + 1\<rparr>;
                r2 = (if ipIdx r1 \<ge> uint8 (length (IPs r1)) then r1\<lparr>ipIdx := 0\<rparr> else r1)
            in if unat (ipIdx r2) < length (IPs r2) then Inr r2 else Inl IndexOutOfRange))
      else Inr r)"

definition currentIP :: "resolved \<Rightarrow> go_panic + net_IP" where
  "currentIP r =
     (if length (IPs r) > 0 then
        (if unat (ipIdx r) < length (IPs r) then Inr (IPs r ! unat (ipIdx r))
         else Inl IndexOutOfRange)
      else Inr [])"

section \<open>Resolution\<close>

text \<open>
  The reversal loop of \<^verbatim>\<open>lookupAddr\<close>:
  \<^verbatim>\<open>for i := len(IPs)/2 - 1; i >= 0; i-- { opp := len(IPs) - 1 - i; IPs[i], IPs[opp] = IPs[opp], IPs[i] }\<close>
\<close>

function revert_loop :: "net_IP list \<Rightarrow> int \<Rightarrow> net_IP list" where
  "revert_loop xs i =
     (if i \<ge> 0 then
        (let opp = int (length xs) - 1 - i
         in revert_loop (xs[nat i := xs ! nat opp, nat opp := xs ! nat i]) (i - 1))
      else xs)"
  by pat_completeness auto
termination
  by (relation "measure (\<lambda>(xs, i). nat (i + 1))") auto

declare revert_loop.simps [simp del]

definition lookupAddr :: "net_env \<Rightarrow> nat \<Rightarrow> ProtectedDialer \<Rightarrow> string \<Rightarrow> error + resolved" where
  "lookupAddr env tick d addr =
     (case SplitHostPort env addr of
        Inl err \<Rightarrow> Inl err
      | Inr (host, port) \<Rightarrow>
          (case LookupPort env tick port of
             Inl err \<Rightarrow> Inl err
           | Inr portnum \<Rightarrow>
               (case LookupIPAddr env tick host of
                  Inl err \<Rightarrow> Inl err
                | Inr addrs \<Rightarrow>
                    if length addrs = 0
                    then Inl (Error (''domain '' @ addr @ '' Failed to resolve''))
                    else
                      (let ips = map IP addrs;
                           ips' =
                             (if \<not> preferIPv6 d \<and> length ips > 1
                                 \<and> To4 (ips ! 0) = None
                                 \<and> To4 (ips ! (length ips - 1)) \<noteq> None
                              then revert_loop ips (int (length ips) div 2 - 1)
                              else ips)
                       in Inr \<lparr>domain = host, IPs = ips', Port = portnum,
                                ipIdx = 0, lastSwitched = 0\<rparr>))))"

section \<open>Preparation\<close>

text \<open>
  Every call that acts on the world outside the function (a lookup, a wait, a store of
  the endpoint, a close, a system call, a rotation) is recorded, in program order, in a
  trace returned beside the result. The trace decides nothing: it is what makes
  "exactly once" and "as the final step" statements about a run.
\<close>

datatype v2net_Network = Network_Unknown | Network_TCP | Network_UDP | Network_UNIX

record SockaddrInet6 =
  sa_Port :: int
  sa_Addr :: "byte list"

datatype os_File = File int string

datatype net_Conn = Conn int

datatype event =
    EvLookupAddr string
  | EvSelect
  | EvStoreServer
  | EvCloseResolveChan
  | EvGetFd v2net_Network
  | EvCurrentIP
  | EvNextIP
  | EvProtect int
  | EvConnect int SockaddrInet6
  | EvNewFile int
  | EvFileConn os_File
  | EvFileClose os_File
  | EvCloseFd int

definition IsVServerReady :: "ProtectedDialer \<Rightarrow> bool" where
  "IsVServerReady d = (vServer d \<noteq> None)"

definition PrepareResolveChan :: "ProtectedDialer \<Rightarrow> ProtectedDialer" where
  "PrepareResolveChan d = d\<lparr>resolveChan := ChanOpen\<rparr>"

text \<open>
  The \<^verbatim>\<open>for\<close> loop of \<^verbatim>\<open>PrepareDomain\<close>. The counter \<^verbatim>\<open>maxRetry\<close> starts at 10 and
  only counts down to 0, so it is a natural number; \<open>tick\<close> numbers the resolver calls.
  \<open>closeFired k\<close> tells whether the \<^verbatim>\<open>select\<close> after the failed attempt \<open>k\<close> takes the
  \<^verbatim>\<open>closeCh\<close> case rather than the two-second timer.
\<close>

fun prepare_loop ::
  "net_env \<Rightarrow> (nat \<Rightarrow> bool) \<Rightarrow> string \<Rightarrow> nat \<Rightarrow> nat \<Rightarrow> ProtectedDialer
     \<Rightarrow> ProtectedDialer \<times> event list" where
  "prepare_loop env closeFired domainName 0 tick d = (d, [])"
| "prepare_loop env closeFired domainName (Suc maxRetry) tick d =
     (case lookupAddr env tick d domainName of
        Inl err \<Rightarrow>
          if closeFired tick then (d, [EvLookupAddr domainName, EvSelect])
          else
            (let (d', tr) = prepare_loop env closeFired domainName maxRetry (Suc tick) d
             in (d', EvLookupAddr domainName # EvSelect # tr))
      | Inr r \<Rightarrow> (d\<lparr>vServer := Some r\<rparr>, [EvLookupAddr domainName, EvStoreServer]))"

text \<open>
  \<^verbatim>\<open>PrepareDomain\<close>. The deferred \<^verbatim>\<open>close(d.resolveChan)\<close> takes the channel as it is
  when the \<^verbatim>\<open>defer\<close> statement runs and closes it when the function returns; closing a
  nil or a closed channel panics.
\<close>

definition PrepareDomain ::
  "net_env \<Rightarrow> (nat \<Rightarrow> bool) \<Rightarrow> ProtectedDialer \<Rightarrow> string \<Rightarrow> bool
     \<Rightarrow> go_panic + (ProtectedDialer \<times> event list)" where
  "PrepareDomain env closeFired d domainName prefIPv6 =
     (let d1 = d\<lparr>currentServer := domainName, preferIPv6 := prefIPv6\<rparr>;
          ch = resolveChan d1;
          (d2, tr) = prepare_loop env closeFired domainName 10 0 d1
      in case ch of
           ChanNil \<Rightarrow> Inl CloseOfNilChannel
         | ChanClosed \<Rightarrow> Inl CloseOfClosedChannel
         | ChanOpen \<Rightarrow> Inr (d2\<lparr>resolveChan := ChanClosed\<rparr>, tr @ [EvCloseResolveChan]))"

section \<open>The protected connection\<close>

record sys_env =
  Socket :: "int \<Rightarrow> int \<Rightarrow> int \<Rightarrow> error + int"
  Protect :: "int \<Rightarrow> bool"
  Connect :: "int \<Rightarrow> SockaddrInet6 \<Rightarrow> error option"
  NewFile :: "int \<Rightarrow> os_File option"
  FileConn :: "os_File \<Rightarrow> error + net_Conn"

definition AF_INET6 :: int where "AF_INET6 = 10"
definition SOCK_STREAM :: int where "SOCK_STREAM = 1"
definition SOCK_DGRAM :: int where "SOCK_DGRAM = 2"
definition IPPROTO_TCP :: int where "IPPROTO_TCP = 6"
definition IPPROTO_UDP :: int where "IPPROTO_UDP = 17"

definition getFd :: "sys_env \<Rightarrow> v2net_Network \<Rightarrow> error + int" where
  "getFd sys network =
     (case network of
        Network_TCP \<Rightarrow> Socket sys AF_INET6 SOCK_STREAM IPPROTO_TCP
      | Network_UDP \<Rightarrow> Socket sys AF_INET6 SOCK_DGRAM IPPROTO_UDP
      | _ \<Rightarrow> Inl (Error ''unknow network''))"

text \<open>\<^verbatim>\<open>copy(sa.Addr[:], ip)\<close> into the zeroed 16-byte array of the socket address.\<close>

definition copy_Addr :: "net_IP \<Rightarrow> byte list" where
  "copy_Addr ip = take 16 ip @ replicate (16 - length ip) 0"

text \<open>
  \<^verbatim>\<open>fdConn\<close>. The deferred \<^verbatim>\<open>unix.Close(fd)\<close> runs on every return, after the deferred
  \<^verbatim>\<open>file.Close()\<close> when that one was registered.
\<close>

definition fdConn ::
  "sys_env \<Rightarrow> net_IP \<Rightarrow> int \<Rightarrow> int \<Rightarrow> (error + net_Conn) \<times> event list" where
  "fdConn sys ip port fd =
     (if \<not> Protect sys fd
      then (Inl (Error ''fail to protect''), [EvProtect fd, EvCloseFd fd])
      else
        (let sa = \<lparr>sa_Port = port, sa_Addr = copy_Addr ip\<rparr>
         in case Connect sys fd sa of
              Some err \<Rightarrow> (Inl err, [EvProtect fd, EvConnect fd sa, EvCloseFd fd])
            | None \<Rightarrow>
                (case NewFile sys fd of
                   None \<Rightarrow>
                     (Inl (Error ''fdConn fd invalid''),
                      [EvProtect fd, EvConnect fd sa, EvNewFile fd, EvCloseFd fd])
                 | Some file \<Rightarrow>
                     (case FileConn sys file of
                        Inl err \<Rightarrow>
                          (Inl err,
                           [EvProtect fd, EvConnect fd sa, EvNewFile fd, EvFileConn file,
                            EvFileClose file, EvCloseFd fd])
                      | Inr conn \<Rightarrow>
                          (Inr conn,
                           [EvProtect fd, EvConnect fd sa, EvNewFile fd, EvFileConn file,
                            EvFileClose file, EvCloseFd fd])))))"

section \<open>Dial\<close>

record Destination =
  Network :: v2net_Network
  NetAddr :: string

text \<open>
  A call of \<^verbatim>\<open>Dial\<close> returns a connection or an error, panics, or is suspended on the
  receive \<^verbatim>\<open><-d.resolveChan\<close>. A suspended call resumes once the channel is closed, in
  the state the dialer has then, with the statements after the receive
  (\<open>Dial_resumed\<close>).
\<close>

datatype dial_result = Blocked | Panicked go_panic | Returned "error + net_Conn"

text \<open>The connection attempt on the stored endpoint \<open>r\<close> (from \<^verbatim>\<open>d.getFd\<close> on).\<close>

definition Dial_connect ::
  "sys_env \<Rightarrow> time \<Rightarrow> ProtectedDialer \<Rightarrow> resolved \<Rightarrow> Destination
     \<Rightarrow> dial_result \<times> ProtectedDialer \<times> event list" where
  "Dial_connect sys now d r dest =
     (case getFd sys (Network dest) of
        Inl err \<Rightarrow> (Returned (Inl err), d, [EvGetFd (Network dest)])
      | Inr fd \<Rightarrow>
          (case currentIP r of
             Inl p \<Rightarrow> (Panicked p, d, [EvGetFd (Network dest), EvCurrentIP])
           | Inr curIP \<Rightarrow>
               (case fdConn sys curIP (Port r) fd of
                  (Inl err, tr) \<Rightarrow>
                    (case NextIP r now of
                       Inl p \<Rightarrow>
                         (Panicked p, d, [EvGetFd (Network dest), EvCurrentIP] @ tr @ [EvNextIP])
                     | Inr r' \<Rightarrow>
                         (Returned (Inl err), d\<lparr>vServer := Some r'\<rparr>,
                          [EvGetFd (Network dest), EvCurrentIP] @ tr @ [EvNextIP]))
                | (Inr conn, tr) \<Rightarrow>
                    (Returned (Inr conn), d, [EvGetFd (Network dest), EvCurrentIP] @ tr))))"

definition Dial_resumed ::
  "sys_env \<Rightarrow> time \<Rightarrow> ProtectedDialer \<Rightarrow> Destination
     \<Rightarrow> dial_result \<times> ProtectedDialer \<times> event list" where
  "Dial_resumed sys now d dest =
     (case vServer d of
        None \<Rightarrow> (Returned (Inl (Error (''fail to prepare domain '' @ currentServer d))), d, [])
      | Some r \<Rightarrow> Dial_connect sys now d r dest)"

definition Dial ::
  "net_env \<Rightarrow> sys_env \<Rightarrow> nat \<Rightarrow> time \<Rightarrow> ProtectedDialer \<Rightarrow> Destination
     \<Rightarrow> dial_result \<times> ProtectedDialer \<times> event list" where
  "Dial env sys tick now d dest =
     (let Address = NetAddr dest
      in if Address = currentServer d then
           (case vServer d of
              None \<Rightarrow>
                (if resolveChan d = ChanClosed then Dial_resumed sys now d dest
                 else (Blocked, d, []))
            | Some r \<Rightarrow> Dial_connect sys now d r dest)
         else
           (case lookupAddr env tick d Address of
              Inl err \<Rightarrow> (Returned (Inl err), d, [EvLookupAddr Address])
            | Inr rs \<Rightarrow>
                (case getFd sys (Network dest) of
                   Inl err \<Rightarrow> (Returned (Inl err), d, [EvLookupAddr Address, EvGetFd (Network dest)])
                 | Inr fd \<Rightarrow>
                     (case IPs rs of
                        [] \<Rightarrow>
                          (Panicked IndexOutOfRange, d,
                           [EvLookupAddr Address, EvGetFd (Network dest)])
                      | ip0 # _ \<Rightarrow>
                          (case fdConn sys ip0 (Port rs) fd of
                             (res, tr) \<Rightarrow>
                               (Returned res, d,
                                [EvLookupAddr Address, EvGetFd (Network dest)] @ tr))))))"

section \<open>Sequences of operations on an endpoint\<close>

text \<open>
  A caller of an endpoint does two things to it: it rotates (\<^verbatim>\<open>NextIP\<close>, at some clock
  reading) and it reads the current address (\<^verbatim>\<open>currentIP\<close>). \<open>run_ops\<close> performs a
  sequence of such calls and stops at the first panic.
\<close>

datatype endpoint_op = Rotate time | Read

fun run_ops :: "resolved \<Rightarrow> endpoint_op list \<Rightarrow> go_panic + resolved" where
  "run_ops r [] = Inr r"
| "run_ops r (Rotate now # ops) =
     (case NextIP r now of Inl p \<Rightarrow> Inl p | Inr r' \<Rightarrow> run_ops r' ops)"
| "run_ops r (Read # ops) =
     (case currentIP r of Inl p \<Rightarrow> Inl p | Inr ip \<Rightarrow> run_ops r ops)"

text \<open>
  A sequence of clock readings none of which is throttled: each is at least five seconds
  (as \<^verbatim>\<open>NextIP\<close> measures it) after the one before, the first after \<open>prev\<close>.
\<close>

fun unsuppressed :: "time \<Rightarrow> time list \<Rightarrow> bool" where
  "unsuppressed prev [] = True"
| "unsuppressed prev (t # ts) = (Second * 5 \<le> Sub t prev \<and> unsuppressed t ts)"

definition isIPv4 :: "net_IP \<Rightarrow> bool" where
  "isIPv4 ip = (To4 ip \<noteq> None)"

text \<open>
  The cursor arithmetic of \<^verbatim>\<open>NextIP\<close> read on natural numbers: the successor of the
  cursor \<open>c\<close> in 8 bits, reset to 0 when it reaches the length \<open>L\<close> truncated to 8 bits.
  Lemma \<open>unat_advance\<close> ties it to the word operations of \<open>NextIP\<close>.
\<close>

definition next_cursor :: "nat \<Rightarrow> nat \<Rightarrow> nat" where
  "next_cursor L c = (if L mod 256 \<le> (c + 1) mod 256 then 0 else (c + 1) mod 256)"

section \<open>Concrete inputs\<close>

text \<open>The addresses 93.184.216.34, 198.51.100.7, 2001:db8::1 and 2001:db8::2.\<close>

definition ip4_a :: net_IP where
  "ip4_a = [93, 184, 216, 34]"

definition ip4_b :: net_IP where
  "ip4_b = [198, 51, 100, 7]"

definition ip6_a :: net_IP where
  "ip6_a = [32, 1, 13, 184, 0, 0, 0, 0, 0, 0, 0, 0, 0, 0, 0, 1]"

definition ip6_b :: net_IP where
  "ip6_b = [32, 1, 13, 184, 0, 0, 0, 0, 0, 0, 0, 0, 0, 0, 0, 2]"

text \<open>A resolver that answers every lookup of proxy.example:443 with the given list.\<close>

definition static_env :: "net_IP list \<Rightarrow> net_env" where
  "static_env ips =
     \<lparr>SplitHostPort = (\<lambda>a. if a = ''proxy.example:443'' then Inr (''proxy.example'', ''443'')
                           else Inl (Error ''missing port in address'')),
      LookupPort = (\<lambda>k p. if p = ''443'' then Inr 443 else Inl (Error ''unknown port'')),
      LookupIPAddr = (\<lambda>k h. Inr (map (\<lambda>ip. \<lparr>IP = ip, Zone = []\<rparr>) ips))\<rparr>"

text \<open>A resolver whose every lookup fails, and one that succeeds from call \<open>n\<close> on.\<close>

definition failing_env :: net_env where
  "failing_env =
     \<lparr>SplitHostPort = (\<lambda>a. Inr (''proxy.example'', ''443'')),
      LookupPort = (\<lambda>k p. Inr 443),
      LookupIPAddr = (\<lambda>k h. Inl (Error ''no such host''))\<rparr>"

definition late_env :: "nat \<Rightarrow> net_env" where
  "late_env n =
     \<lparr>SplitHostPort = (\<lambda>a. Inr (''proxy.example'', ''443'')),
      LookupPort = (\<lambda>k p. Inr 443),
      LookupIPAddr = (\<lambda>k h. if k < n then Inl (Error ''no such host'')
                             else Inr [\<lparr>IP = ip4_a, Zone = []\<rparr>])\<rparr>"

definition fresh_dialer :: ProtectedDialer where
  "fresh_dialer = \<lparr>currentServer = [], resolveChan = ChanNil, preferIPv6 = False, vServer = None\<rparr>"

definition endpoint_of :: "net_IP list \<Rightarrow> resolved" where
  "endpoint_of ips =
     \<lparr>domain = ''proxy.example'', IPs = ips, Port = 443, ipIdx = 0, lastSwitched = 0\<rparr>"

text \<open>The endpoint of \<open>[93.184.216.34, 2001:db8::1]\<close> after one rotation at second 10.\<close>

definition rotated_once :: resolved where
  "rotated_once =
     \<lparr>domain = ''proxy.example'', IPs = [ip4_a, ip6_a], Port = 443, ipIdx = 1,
      lastSwitched = 10000000000\<rparr>"

text \<open>A dialer whose preparation has stored the endpoint of two addresses.\<close>

definition prepared_dialer :: ProtectedDialer where
  "prepared_dialer =
     \<lparr>currentServer = ''proxy.example:443'', resolveChan = ChanClosed, preferIPv6 = False,
      vServer = Some (endpoint_of [ip4_a, ip6_a])\<rparr>"

text \<open>System calls: a socket 7 that is protected or not, and a connect that fails or not.\<close>

definition sys_of :: "bool \<Rightarrow> bool \<Rightarrow> sys_env" where
  "sys_of protected reachable =
     \<lparr>Socket = (\<lambda>dom typ proto. Inr 7),
      Protect = (\<lambda>fd. protected),
      Connect = (\<lambda>fd sa. if reachable then None else Some (Error ''connection refused'')),
      NewFile = (\<lambda>fd. Some (File fd ''Socket'')),
      FileConn = (\<lambda>f. Inr (Conn 7))\<rparr>"

text \<open>System calls where no socket can be had.\<close>

definition sys_no_socket :: sys_env where
  "sys_no_socket =
     \<lparr>Socket = (\<lambda>dom typ proto. Inl (Error ''too many open files'')),
      Protect = (\<lambda>fd. True),
      Connect = (\<lambda>fd sa. None),
      NewFile = (\<lambda>fd. Some (File fd ''Socket'')),
      FileConn = (\<lambda>f. Inr (Conn 7))\<rparr>"

definition target_dest :: Destination where
  "target_dest = \<lparr>Network = Network_TCP, NetAddr = ''proxy.example:443''\<rparr>"

section \<open>The reversal loop reverses\<close>

lemma length_revert_loop: "length (revert_loop xs i) = length xs"
proof (induction xs i rule: revert_loop.induct)
  case (1 xs i)
  show ?case
  proof (cases "i \<ge> 0")
    case True
    with "1" show ?thesis
      by (subst revert_loop.simps) (simp add: Let_def)
  next
    case False
    then show ?thesis
      by (subst revert_loop.simps) simp
  qed
qed

lemma revert_loop_nth:
  "- 1 \<le> i \<Longrightarrow> i < int (length xs) div 2 \<Longrightarrow> j < length xs \<Longrightarrow>
   revert_loop xs i ! j =
     (if int j \<le> i \<or> int j \<ge> int (length xs) - 1 - i then xs ! (length xs - 1 - j) else xs ! j)"
proof (induction xs i arbitrary: j rule: revert_loop.induct)
  case (1 xs i)
  show ?case
  proof (cases "i \<ge> 0")
    case False
    with "1.prems" have "i = - 1" by simp
    then show ?thesis using "1.prems"
      by (subst revert_loop.simps) auto
  next
    case True
    define opp where "opp = int (length xs) - 1 - i"
    define ys where "ys = xs[nat i := xs ! nat opp, nat opp := xs ! nat i]"
    have len: "length ys = length xs" by (simp add: ys_def)
    have opp_gt: "i < opp" using "1.prems" True by (simp add: opp_def)
    have opp_lt: "nat opp < length xs" using True opp_gt by (simp add: opp_def)
    have i_lt: "nat i < length xs" using opp_gt opp_lt True by linarith
    have IH: "revert_loop ys (i - 1) ! j =
       (if int j \<le> i - 1 \<or> int j \<ge> int (length ys) - 1 - (i - 1)
        then ys ! (length ys - 1 - j) else ys ! j)"
      using "1.IH"[OF True opp_def, of j] "1.prems" True len
      unfolding ys_def[symmetric] by simp
    have unf: "revert_loop xs i = revert_loop ys (i - 1)"
      using True by (subst revert_loop.simps) (simp add: Let_def ys_def opp_def)
    define a where "a = nat i"
    define b where "b = nat opp"
    have ab: "a < b" "b < length xs" "b = length xs - 1 - a"
      using True opp_gt opp_lt by (auto simp: a_def b_def opp_def)
    have c1: "int j \<le> i - 1 \<longleftrightarrow> j < a" using True by (auto simp: a_def)
    have c2: "int j \<ge> int (length xs) - 1 - (i - 1) \<longleftrightarrow> j > b"
      using True opp_gt by (auto simp: b_def opp_def)
    have c3: "int j \<le> i \<longleftrightarrow> j \<le> a" using True by (auto simp: a_def)
    have c4: "int j \<ge> int (length xs) - 1 - i \<longleftrightarrow> j \<ge> b"
      using True opp_gt by (auto simp: b_def opp_def)
    have ys: "ys = xs[a := xs ! b, b := xs ! a]" by (simp add: ys_def a_def b_def)
    consider "j < a" | "j = a" | "a < j" "j < b" | "j = b" | "b < j" by linarith
    then have "(if j < a \<or> j > b then ys ! (length xs - 1 - j) else ys ! j) =
          (if j \<le> a \<or> j \<ge> b then xs ! (length xs - 1 - j) else xs ! j)"
    proof cases
      case 1
      then have "length xs - 1 - j \<noteq> a" "length xs - 1 - j \<noteq> b" using ab by linarith+
      then show ?thesis using 1 ab by (simp add: ys)
    next
      case 2
      then show ?thesis using ab by (simp add: ys)
    next
      case 3
      then show ?thesis using ab by (simp add: ys)
    next
      case 4
      then have "length xs - 1 - j = a" using ab by linarith
      then show ?thesis using 4 ab by (simp add: ys)
    next
      case 5
      then have "length xs - 1 - j \<noteq> a" "length xs - 1 - j \<noteq> b" using ab "1.prems"(3) by linarith+
      then show ?thesis using 5 ab by (simp add: ys)
    qed
    then show ?thesis
      unfolding unf IH len c1 c2 c3 c4 .
  qed
qed

lemma revert_loop_rev:
  "revert_loop xs (int (length xs) div 2 - 1) = rev xs"
proof (rule nth_equalityI)
  show "length (revert_loop xs (int (length xs) div 2 - 1)) = length (rev xs)"
    by (simp add: length_revert_loop)
next
  fix j assume "j < length (revert_loop xs (int (length xs) div 2 - 1))"
  then have j: "j < length xs" by (simp add: length_revert_loop)
  have "revert_loop xs (int (length xs) div 2 - 1) ! j = xs ! (length xs - 1 - j)"
  proof (cases "int j \<le> int (length xs) div 2 - 1 \<or> int j \<ge> int (length xs) - 1 - (int (length xs) div 2 - 1)")
    case True
    then show ?thesis using revert_loop_nth[of "int (length xs) div 2 - 1" xs j] j by simp
  next
    case False
    then have "length xs - 1 - j = j" using j by linarith
    then show ?thesis using revert_loop_nth[of "int (length xs) div 2 - 1" xs j] j False by simp
  qed
  then show "revert_loop xs (int (length xs) div 2 - 1) ! j = rev xs ! j"
    using j by (simp add: rev_nth)
qed

section \<open>What lookupAddr stores\<close>

lemma lookupAddr_result:
  assumes "SplitHostPort env addr = Inr (host, port)"
    and "LookupPort env tick port = Inr portnum"
    and "LookupIPAddr env tick host = Inr addrs"
    and "addrs \<noteq> []"
  shows "lookupAddr env tick d addr =
     Inr \<lparr>domain = host,
          IPs = (if \<not> preferIPv6 d \<and> length addrs > 1 \<and> \<not> isIPv4 (IP (hd addrs))
                    \<and> isIPv4 (IP (last addrs))
                 then rev (map IP addrs) else map IP addrs),
          Port = portnum, ipIdx = 0, lastSwitched = 0\<rparr>"
proof -
  have h: "map IP addrs ! 0 = IP (hd addrs)"
    using assms(4) by (simp add: hd_conv_nth)
  have l: "map IP addrs ! (length addrs - 1) = IP (last addrs)"
    using assms(4) by (simp add: last_conv_nth)
  have r: "revert_loop (map IP addrs) (int (length addrs) div 2 - 1) = rev (map IP addrs)"
    using revert_loop_rev [of "map IP addrs"] by simp
  have c: "(\<not> preferIPv6 d \<and> length (map IP addrs) > 1 \<and> To4 (map IP addrs ! 0) = None
              \<and> To4 (map IP addrs ! (length (map IP addrs) - 1)) \<noteq> None)
           = (\<not> preferIPv6 d \<and> length addrs > 1 \<and> \<not> isIPv4 (IP (hd addrs))
              \<and> isIPv4 (IP (last addrs)))"
  proof -
    have l': "map IP addrs ! (length addrs - Suc 0) = IP (last addrs)"
      using l by simp
    show ?thesis
      by (simp only: h l' length_map isIPv4_def One_nat_def not_not)
  qed
  have n: "length addrs \<noteq> 0"
    using assms(4) by simp
  show ?thesis
    unfolding lookupAddr_def assms(1-3) sum.case prod.case Let_def c
    using n r by simp
qed

lemma isIPv4_examples:
  "isIPv4 ip4_a" "isIPv4 ip4_b" "\<not> isIPv4 ip6_a" "\<not> isIPv4 ip6_b"
  by (simp_all add: isIPv4_def To4_def ip4_a_def ip4_b_def ip6_a_def ip6_b_def)

lemma ip_examples_distinct:
  "ip4_a \<noteq> ip6_a" "ip4_a \<noteq> ip4_b" "ip6_a \<noteq> ip6_b"
  by (simp_all add: ip4_a_def ip4_b_def ip6_a_def ip6_b_def)

lemma static_env_lookup:
  "ips \<noteq> [] \<Longrightarrow>
   lookupAddr (static_env ips) tick d ''proxy.example:443'' =
     Inr \<lparr>domain = ''proxy.example'',
          IPs = (if \<not> preferIPv6 d \<and> length ips > 1 \<and> \<not> isIPv4 (hd ips) \<and> isIPv4 (last ips)
                 then rev ips else ips),
          Port = 443, ipIdx = 0, lastSwitched = 0\<rparr>"
  using lookupAddr_result [of "static_env ips" "''proxy.example:443''" "''proxy.example''" "''443''"
      tick 443 "map (\<lambda>ip. \<lparr>IP = ip, Zone = []\<rparr>) ips" d]
  by (simp add: static_env_def hd_map last_map rev_map o_def)

text \<open>
  Claim C1, as it is written, fails: the resolver answers \<open>[2001:db8::1, 93.184.216.34,
  2001:db8::2]\<close>, the caller does not prefer IPv6, the list mixes families and contains an
  IPv4 entry, and yet the stored list is the resolver's own, with an IPv6 address first. The
  guard of the reversal looks at the first and the last entry only.
\<close>

theorem C1_counterexample:
  "\<not> preferIPv6 fresh_dialer
   \<and> isIPv4 ip4_a \<and> \<not> isIPv4 ip6_a \<and> \<not> isIPv4 ip6_b
   \<and> lookupAddr (static_env [ip6_a, ip4_a, ip6_b]) 0 fresh_dialer ''proxy.example:443''
       = Inr \<lparr>domain = ''proxy.example'', IPs = [ip6_a, ip4_a, ip6_b], Port = 443,
              ipIdx = 0, lastSwitched = 0\<rparr>
   \<and> hd [ip6_a, ip4_a, ip6_b] = ip6_a"
  by (simp add: static_env_lookup isIPv4_examples fresh_dialer_def)

text \<open>
  Claim C1, amended: for every resolved list with \<open>preferIPv6 = false\<close> and more than one
  entry, the first entry of the list stored by \<open>lookupAddr\<close> is an IPv4 address exactly when
  the resolver's result has an IPv4 address in its first or in its last position (so
  whenever the resolver lists its IPv6 entries in front of its IPv4 entries); single-family
  and single-element lists are stored unchanged.
\<close>

theorem C1_first_entry_IPv4:
  assumes "SplitHostPort env addr = Inr (host, port)"
    and "LookupPort env tick port = Inr portnum"
    and "LookupIPAddr env tick host = Inr addrs"
    and "addrs \<noteq> []"
    and "\<not> preferIPv6 d"
  shows "\<exists>r. lookupAddr env tick d addr = Inr r
     \<and> (length addrs > 1 \<longrightarrow>
          (isIPv4 (hd (IPs r)) \<longleftrightarrow> isIPv4 (IP (hd addrs)) \<or> isIPv4 (IP (last addrs))))
     \<and> (list_all isIPv4 (map IP addrs) \<or> list_all (\<lambda>ip. \<not> isIPv4 ip) (map IP addrs)
          \<or> length addrs = 1 \<longrightarrow> IPs r = map IP addrs)"
proof -
  let ?ips = "map IP addrs"
  let ?rev = "\<not> preferIPv6 d \<and> length addrs > 1 \<and> \<not> isIPv4 (IP (hd addrs))
                \<and> isIPv4 (IP (last addrs))"
  let ?r = "\<lparr>domain = host, IPs = (if ?rev then rev ?ips else ?ips),
             Port = portnum, ipIdx = 0, lastSwitched = 0\<rparr>"
  have res: "lookupAddr env tick d addr = Inr ?r"
    using assms(1-4) by (rule lookupAddr_result)
  have hd_in: "hd addrs \<in> set addrs" and last_in: "last addrs \<in> set addrs"
    using assms(4) by simp_all
  have first: "isIPv4 (hd (IPs ?r)) \<longleftrightarrow> isIPv4 (IP (hd addrs)) \<or> isIPv4 (IP (last addrs))"
    if "length addrs > 1"
    using assms(4,5) that by (auto simp: hd_rev last_map hd_map)
  have same: "IPs ?r = ?ips"
    if "list_all isIPv4 ?ips \<or> list_all (\<lambda>ip. \<not> isIPv4 ip) ?ips \<or> length addrs = 1"
    using that hd_in last_in by (auto simp: list_all_iff)
  show ?thesis
    using res first same by blast
qed

theorem C1_first_entry_IPv4_witness:
  "(\<exists>r. lookupAddr (static_env [ip6_a, ip6_b, ip4_a]) 0 fresh_dialer ''proxy.example:443'' = Inr r
        \<and> isIPv4 (hd (IPs r)))
   \<and> (\<exists>r. lookupAddr (static_env [ip6_a, ip6_b]) 0 fresh_dialer ''proxy.example:443'' = Inr r
        \<and> IPs r = [ip6_a, ip6_b])"
proof -
  have a: "SplitHostPort (static_env ips) ''proxy.example:443'' = Inr (''proxy.example'', ''443'')"
    for ips by (simp add: static_env_def)
  have b: "LookupPort (static_env ips) 0 ''443'' = Inr 443"
    for ips by (simp add: static_env_def)
  have c: "LookupIPAddr (static_env ips) 0 ''proxy.example'' = Inr (map (\<lambda>ip. \<lparr>IP = ip, Zone = []\<rparr>) ips)"
    for ips by (simp add: static_env_def)
  have p: "\<not> preferIPv6 fresh_dialer"
    by (simp add: fresh_dialer_def)
  show ?thesis
    using C1_first_entry_IPv4 [OF a b c _ p, of "[ip6_a, ip6_b, ip4_a]"]
      C1_first_entry_IPv4 [OF a b c _ p, of "[ip6_a, ip6_b]"]
    by (auto simp: isIPv4_examples)
qed

text \<open>
  Claim C3, as it is written, fails: with the resolver's result \<open>[93.184.216.34,
  2001:db8::1]\<close> the caller does not prefer IPv6, the list has more than one entry and
  contains an IPv4 entry, and the stored list is not the reversal.
\<close>

theorem C3_counterexample:
  "\<not> preferIPv6 fresh_dialer
   \<and> isIPv4 ip4_a
   \<and> lookupAddr (static_env [ip4_a, ip6_a]) 0 fresh_dialer ''proxy.example:443''
       = Inr \<lparr>domain = ''proxy.example'', IPs = [ip4_a, ip6_a], Port = 443,
              ipIdx = 0, lastSwitched = 0\<rparr>
   \<and> [ip4_a, ip6_a] \<noteq> rev [ip4_a, ip6_a]"
  by (simp add: static_env_lookup isIPv4_examples fresh_dialer_def ip_examples_distinct)

text \<open>
  Claim C3, amended: whenever the reordering applies (the caller does not prefer IPv6, the
  list has more than one entry, its first entry is not IPv4 and its last entry is IPv4), the
  stored list is exactly the reversal of the list the resolver returned, so the order within
  each family is reversed too; in every other case the stored list is the resolver's.
\<close>

theorem C3_full_reversal:
  assumes "SplitHostPort env addr = Inr (host, port)"
    and "LookupPort env tick port = Inr portnum"
    and "LookupIPAddr env tick host = Inr addrs"
    and "addrs \<noteq> []"
  shows "\<exists>r. lookupAddr env tick d addr = Inr r
     \<and> IPs r =
         (if \<not> preferIPv6 d \<and> length addrs > 1 \<and> \<not> isIPv4 (IP (hd addrs))
             \<and> isIPv4 (IP (last addrs))
          then rev (map IP addrs) else map IP addrs)"
  using lookupAddr_result [OF assms, of d] by simp

theorem C3_full_reversal_witness:
  "(\<exists>r. lookupAddr (static_env [ip6_a, ip6_b, ip4_a, ip4_b]) 0 fresh_dialer ''proxy.example:443'' = Inr r
        \<and> IPs r = [ip4_b, ip4_a, ip6_b, ip6_a])
   \<and> (\<exists>r. lookupAddr (static_env [ip6_a, ip4_a]) 0 fresh_dialer ''proxy.example:443'' = Inr r
        \<and> IPs r = [ip4_a, ip6_a])"
proof -
  have a: "SplitHostPort (static_env ips) ''proxy.example:443'' = Inr (''proxy.example'', ''443'')"
    for ips by (simp add: static_env_def)
  have b: "LookupPort (static_env ips) 0 ''443'' = Inr 443"
    for ips by (simp add: static_env_def)
  have c: "LookupIPAddr (static_env ips) 0 ''proxy.example'' = Inr (map (\<lambda>ip. \<lparr>IP = ip, Zone = []\<rparr>) ips)"
    for ips by (simp add: static_env_def)
  show ?thesis
    using C3_full_reversal [OF a b c, of "[ip6_a, ip6_b, ip4_a, ip4_b]" fresh_dialer]
      C3_full_reversal [OF a b c, of "[ip6_a, ip4_a]" fresh_dialer]
    by (auto simp: isIPv4_examples fresh_dialer_def)
qed

section \<open>The rotation cursor stays in range\<close>

lemma Sub_less_5s: "Sub t u < Second * 5 \<longleftrightarrow> t - u < Second * 5"
  by (simp add: Sub_def Second_def maxDuration_def minDuration_def)

lemma Sub_ge_5s: "Second * 5 \<le> Sub t u \<longleftrightarrow> Second * 5 \<le> t - u"
  by (simp add: Sub_def Second_def maxDuration_def minDuration_def)

lemma unat_uint8: "unat (uint8 n) = n mod 256"
  by (simp add: uint8_def unat_of_nat)

lemma unat_succ_u8: "unat (w + 1 :: 8 word) = (unat w + 1) mod 256"
  by (simp add: unat_word_ariths)

lemma NextIP_throttled:
  "Sub now (lastSwitched r) < Second * 5 \<Longrightarrow> NextIP r now = Inr r"
  by (simp add: NextIP_def)

lemma NextIP_short: "length (IPs r) \<le> 1 \<Longrightarrow> NextIP r now = Inr r"
  by (simp add: NextIP_def)

lemma NextIP_advance:
  assumes "length (IPs r) > 1" and "Second * 5 \<le> Sub now (lastSwitched r)"
  shows "NextIP r now =
     Inr (r\<lparr>lastSwitched := now,
            ipIdx := (if uint8 (length (IPs r)) \<le> ipIdx r + 1 then 0 else ipIdx r + 1)\<rparr>)"
proof (cases "uint8 (length (IPs r)) \<le> ipIdx r + 1")
  case True
  have "IPs r \<noteq> []"
    using assms(1) by auto
  then show ?thesis
    using assms True by (simp add: NextIP_def Let_def)
next
  case False
  then have "unat (ipIdx r + 1) < unat (uint8 (length (IPs r)))"
    by (simp add: word_le_nat_alt)
  also have "\<dots> \<le> length (IPs r)"
    by (simp add: unat_uint8)
  finally show ?thesis
    using assms False by (simp add: NextIP_def Let_def)
qed

lemma unat_advance:
  "unat (if uint8 L \<le> (w :: 8 word) + 1 then 0 else w + 1) = next_cursor L (unat w)"
  by (simp add: next_cursor_def word_le_nat_alt unat_uint8 unat_succ_u8)

lemma next_cursor_in_range: "1 < L \<Longrightarrow> next_cursor L c < L"
proof (cases "L mod 256 \<le> (c + 1) mod 256")
  case True
  assume "1 < L"
  then show ?thesis using True by (simp add: next_cursor_def)
next
  case False
  then have "(c + 1) mod 256 < L mod 256" by simp
  also have "\<dots> \<le> L" by simp
  finally show ?thesis using False by (simp add: next_cursor_def)
qed

lemma next_cursor_cycle:
  assumes "c < max 1 (L mod 256)"
  shows "next_cursor L c = (if L mod 256 \<le> 1 then 0 else (c + 1) mod (L mod 256))"
proof (cases "L mod 256 \<le> 1")
  case True
  then have "c = 0" using assms by simp
  then show ?thesis using True by (simp add: next_cursor_def)
next
  case False
  define m where "m = L mod 256"
  have m: "1 < m" "m < 256" "c < m" using False assms by (simp_all add: m_def)
  then have small: "(c + 1) mod 256 = c + 1" by simp
  show ?thesis
  proof (cases "m \<le> c + 1")
    case True
    then have "c + 1 = m" using m by simp
    then show ?thesis using m False small unfolding next_cursor_def m_def [symmetric] by simp
  next
    case False
    then show ?thesis using m small unfolding next_cursor_def m_def [symmetric] by simp
  qed
qed

lemma NextIP_cursor:
  assumes "IPs r \<noteq> []" and "unat (ipIdx r) < length (IPs r)"
  shows "\<exists>r'. NextIP r now = Inr r' \<and> IPs r' = IPs r \<and> unat (ipIdx r') < length (IPs r')"
proof (cases "length (IPs r) > 1 \<and> Second * 5 \<le> Sub now (lastSwitched r)")
  case True
  then show ?thesis
    using NextIP_advance [of r now] next_cursor_in_range [of "length (IPs r)" "unat (ipIdx r)"]
    by (simp add: unat_advance del: One_nat_def)
next
  case False
  then have "NextIP r now = Inr r"
    using NextIP_throttled [of now r] NextIP_short [of r now] by (cases "length (IPs r) > 1") auto
  then show ?thesis using assms by simp
qed

lemma currentIP_in_range:
  "IPs r \<noteq> [] \<Longrightarrow> unat (ipIdx r) < length (IPs r) \<Longrightarrow>
   currentIP r = Inr (IPs r ! unat (ipIdx r))"
  by (simp add: currentIP_def)

lemma run_ops_cursor:
  assumes "IPs r \<noteq> []" and "unat (ipIdx r) < length (IPs r)"
  shows "\<exists>r'. run_ops r ops = Inr r' \<and> IPs r' = IPs r \<and> unat (ipIdx r') < length (IPs r')"
  using assms
proof (induction ops arbitrary: r)
  case Nil
  then show ?case by simp
next
  case (Cons op ops)
  show ?case
  proof (cases op)
    case (Rotate now)
    from NextIP_cursor [OF Cons.prems, of now] obtain r1
      where r1: "NextIP r now = Inr r1" "IPs r1 = IPs r" "unat (ipIdx r1) < length (IPs r1)"
      by blast
    then have "IPs r1 \<noteq> []" using Cons.prems by simp
    from Cons.IH [OF this r1(3)] r1 Rotate show ?thesis by simp
  next
    case Read
    with Cons.IH [OF Cons.prems] currentIP_in_range [OF Cons.prems] show ?thesis by simp
  qed
qed

lemma lookupAddr_cursor:
  assumes "lookupAddr env tick d addr = Inr r"
  shows "IPs r \<noteq> [] \<and> ipIdx r = 0 \<and> lastSwitched r = 0"
proof -
  from assms obtain host port where 1: "SplitHostPort env addr = Inr (host, port)"
    by (auto simp: lookupAddr_def split: sum.splits)
  from assms 1 obtain portnum where 2: "LookupPort env tick port = Inr portnum"
    by (auto simp: lookupAddr_def split: sum.splits)
  from assms 1 2 obtain addrs where 3: "LookupIPAddr env tick host = Inr addrs"
    by (auto simp: lookupAddr_def split: sum.splits)
  from assms 1 2 3 have 4: "addrs \<noteq> []"
    by (auto simp: lookupAddr_def split: sum.splits)
  show ?thesis
    using lookupAddr_result [OF 1 2 3 4, of d] assms 4 by auto
qed

text \<open>
  Claim C2: the cursor of an endpoint created by \<open>lookupAddr\<close> is in range, and from any
  endpoint with a non-empty list and a cursor in range, every sequence of \<open>NextIP\<close> and
  \<open>currentIP\<close> calls runs without a panic, keeps the list and leaves the cursor in range,
  so that \<open>currentIP\<close> reads inside the list.
\<close>

theorem C2_cursor_in_range:
  "(lookupAddr env tick d addr = Inr r0 \<longrightarrow>
      IPs r0 \<noteq> [] \<and> unat (ipIdx r0) < length (IPs r0))
   \<and> (IPs r \<noteq> [] \<and> unat (ipIdx r) < length (IPs r) \<longrightarrow>
      (\<exists>r'. run_ops r ops = Inr r' \<and> IPs r' = IPs r
          \<and> unat (ipIdx r') < length (IPs r')
          \<and> currentIP r' = Inr (IPs r' ! unat (ipIdx r'))))"
proof (intro conjI impI)
  assume "lookupAddr env tick d addr = Inr r0"
  from lookupAddr_cursor [OF this] show "IPs r0 \<noteq> []" by simp
  from lookupAddr_cursor [OF \<open>lookupAddr env tick d addr = Inr r0\<close>]
  show "unat (ipIdx r0) < length (IPs r0)" by simp
next
  assume a: "IPs r \<noteq> [] \<and> unat (ipIdx r) < length (IPs r)"
  then obtain r' where r': "run_ops r ops = Inr r'" "IPs r' = IPs r"
      "unat (ipIdx r') < length (IPs r')"
    using run_ops_cursor [of r ops] by blast
  then have "currentIP r' = Inr (IPs r' ! unat (ipIdx r'))"
    using a by (simp add: currentIP_in_range)
  with r' show "\<exists>r'. run_ops r ops = Inr r' \<and> IPs r' = IPs r
          \<and> unat (ipIdx r') < length (IPs r')
          \<and> currentIP r' = Inr (IPs r' ! unat (ipIdx r'))"
    by blast
qed

theorem C2_cursor_in_range_witness:
  "(\<exists>r0. lookupAddr (static_env [ip6_a, ip4_a]) 0 fresh_dialer ''proxy.example:443'' = Inr r0
        \<and> IPs r0 \<noteq> [] \<and> unat (ipIdx r0) < length (IPs r0))
   \<and> (\<exists>r'. run_ops (endpoint_of [ip4_a, ip6_a])
            [Read, Rotate 6000000000, Read, Rotate 7000000000, Rotate 12000000000] = Inr r'
        \<and> IPs r' = [ip4_a, ip6_a] \<and> unat (ipIdx r') < 2
        \<and> currentIP r' = Inr (IPs r' ! unat (ipIdx r')))"
  using C2_cursor_in_range [of "static_env [ip6_a, ip4_a]" 0 fresh_dialer "''proxy.example:443''"
      "\<lparr>domain = ''proxy.example'', IPs = [ip4_a, ip6_a], Port = 443, ipIdx = 0, lastSwitched = 0\<rparr>"
      "endpoint_of [ip4_a, ip6_a]"
      "[Read, Rotate 6000000000, Read, Rotate 7000000000, Rotate 12000000000]"]
  by (auto simp: static_env_lookup isIPv4_examples fresh_dialer_def endpoint_of_def)

section \<open>The throttle\<close>

text \<open>
  Claim C4, as it is written, fails in its second part: the endpoint of two addresses was
  rotated at second 10; a rotation at second 14 is suppressed and leaves the recorded time at
  second 10; the next rotation, at second 16, is two seconds after the previous call and is
  not suppressed: the cursor moves from 1 to 0.
\<close>

theorem C4_counterexample:
  "NextIP (endpoint_of [ip4_a, ip6_a]) 10000000000 = Inr rotated_once
   \<and> 2 \<le> length (IPs rotated_once)
   \<and> NextIP rotated_once 14000000000 = Inr rotated_once
   \<and> (16000000000 :: time) - 14000000000 < 5 * Second
   \<and> NextIP rotated_once 16000000000 = Inr (rotated_once\<lparr>lastSwitched := 16000000000, ipIdx := 0\<rparr>)
   \<and> ipIdx (rotated_once\<lparr>lastSwitched := 16000000000, ipIdx := 0\<rparr>) \<noteq> ipIdx rotated_once"
  by (simp add: NextIP_def endpoint_of_def rotated_once_def Sub_def Second_def maxDuration_def
      minDuration_def uint8_def Let_def word_le_nat_alt)

text \<open>
  Claim C4, amended: for every endpoint with at least two IPs, a \<open>NextIP\<close> call made less
  than 5 seconds after the recorded time of the last unsuppressed rotation returns the
  endpoint as it was, cursor and recorded time included; in particular, after a \<open>NextIP\<close>
  call that was not suppressed (it records its own time), a second call less than 5 seconds
  later changes nothing. A \<open>NextIP\<close> call on an endpoint with fewer than two IPs changes
  nothing either.
\<close>

theorem C4_throttle:
  "(2 \<le> length (IPs r) \<and> now - lastSwitched r < 5 * Second \<longrightarrow> NextIP r now = Inr r)
   \<and> (2 \<le> length (IPs r) \<and> 5 * Second \<le> t1 - lastSwitched r \<and> t2 - t1 < 5 * Second \<longrightarrow>
        (\<exists>r1. NextIP r t1 = Inr r1 \<and> lastSwitched r1 = t1 \<and> NextIP r1 t2 = Inr r1))
   \<and> (length (IPs r) < 2 \<longrightarrow> NextIP r now = Inr r)"
proof (intro conjI impI)
  assume "2 \<le> length (IPs r) \<and> now - lastSwitched r < 5 * Second"
  then show "NextIP r now = Inr r"
    by (simp add: NextIP_throttled Sub_less_5s)
next
  assume a: "2 \<le> length (IPs r) \<and> 5 * Second \<le> t1 - lastSwitched r \<and> t2 - t1 < 5 * Second"
  define r1 where "r1 = r\<lparr>lastSwitched := t1,
      ipIdx := (if uint8 (length (IPs r)) \<le> ipIdx r + 1 then 0 else ipIdx r + 1)\<rparr>"
  have "NextIP r t1 = Inr r1"
    using a NextIP_advance [of r t1] by (simp add: r1_def Sub_ge_5s)
  moreover have "lastSwitched r1 = t1"
    by (simp add: r1_def)
  moreover have "NextIP r1 t2 = Inr r1"
    using a by (simp add: NextIP_throttled Sub_less_5s r1_def)
  ultimately show "\<exists>r1. NextIP r t1 = Inr r1 \<and> lastSwitched r1 = t1 \<and> NextIP r1 t2 = Inr r1"
    by blast
next
  assume "length (IPs r) < 2"
  then show "NextIP r now = Inr r"
    by (simp add: NextIP_short)
qed

theorem C4_throttle_witness:
  "NextIP rotated_once 14999999999 = Inr rotated_once
   \<and> (\<exists>r1. NextIP (endpoint_of [ip4_a, ip6_a]) 10000000000 = Inr r1
         \<and> lastSwitched r1 = 10000000000 \<and> NextIP r1 12000000000 = Inr r1)
   \<and> NextIP (endpoint_of [ip4_a]) 10000000000 = Inr (endpoint_of [ip4_a])"
  using C4_throttle [of rotated_once 14999999999 10000000000 12000000000]
    C4_throttle [of "endpoint_of [ip4_a, ip6_a]" 10000000000 10000000000 12000000000]
    C4_throttle [of "endpoint_of [ip4_a]" 10000000000 10000000000 12000000000]
  by (simp add: rotated_once_def endpoint_of_def Sub_def Second_def maxDuration_def minDuration_def)

section \<open>The 8-bit cursor on long lists\<close>

lemma run_rotations_cycle:
  assumes "length (IPs r) > 1" and "unat (ipIdx r) < max 1 (length (IPs r) mod 256)"
  shows "\<exists>r'. run_ops r (map Rotate ts) = Inr r' \<and> IPs r' = IPs r
     \<and> unat (ipIdx r') < max 1 (length (IPs r) mod 256)
     \<and> (unsuppressed (lastSwitched r) ts \<longrightarrow>
          unat (ipIdx r') =
            (if length (IPs r) mod 256 \<le> 1 then 0
             else (unat (ipIdx r) + length ts) mod (length (IPs r) mod 256)))"
  using assms
proof (induction ts arbitrary: r)
  case Nil
  then show ?case by auto
next
  case (Cons t ts)
  let ?m = "length (IPs r) mod 256"
  show ?case
  proof (cases "Second * 5 \<le> Sub t (lastSwitched r)")
    case False
    then have "NextIP r t = Inr r"
      by (simp add: NextIP_throttled)
    with Cons.IH [OF Cons.prems] False show ?thesis by auto
  next
    case True
    define r1 where "r1 = r\<lparr>lastSwitched := t,
        ipIdx := (if uint8 (length (IPs r)) \<le> ipIdx r + 1 then 0 else ipIdx r + 1)\<rparr>"
    have step: "NextIP r t = Inr r1"
      using NextIP_advance [OF Cons.prems(1) True] by (simp add: r1_def)
    have c1: "unat (ipIdx r1) = (if ?m \<le> 1 then 0 else (unat (ipIdx r) + 1) mod ?m)"
      using next_cursor_cycle [OF Cons.prems(2)] by (simp add: r1_def unat_advance)
    have same: "IPs r1 = IPs r" "lastSwitched r1 = t"
      by (simp_all add: r1_def)
    have b1: "unat (ipIdx r1) < max 1 (length (IPs r1) mod 256)"
      unfolding same c1 by (cases "?m \<le> 1") simp_all
    have l1: "length (IPs r1) > 1"
      using Cons.prems(1) same by simp
    from Cons.IH [OF l1 b1] obtain r' where r':
      "run_ops r1 (map Rotate ts) = Inr r'" "IPs r' = IPs r1"
      "unat (ipIdx r') < max 1 (length (IPs r1) mod 256)"
      "unsuppressed (lastSwitched r1) ts \<longrightarrow>
          unat (ipIdx r') =
            (if length (IPs r1) mod 256 \<le> 1 then 0
             else (unat (ipIdx r1) + length ts) mod (length (IPs r1) mod 256))"
      by blast
    have "unat (ipIdx r') = (if ?m \<le> 1 then 0 else (unat (ipIdx r) + length (t # ts)) mod ?m)"
      if "unsuppressed (lastSwitched r) (t # ts)"
    proof (cases "?m \<le> 1")
      case True
      then show ?thesis using that r'(4) same by simp
    next
      case False
      have "unat (ipIdx r') = ((unat (ipIdx r) + 1) mod ?m + length ts) mod ?m"
        using that r'(4) same c1 False by simp
      also have "\<dots> = (unat (ipIdx r) + 1 + length ts) mod ?m"
        by (rule mod_add_left_eq)
      finally show ?thesis using False by simp
    qed
    with r' step same show ?thesis by simp
  qed
qed

text \<open>
  Claim C10: the cursor is an 8-bit word and \<open>NextIP\<close> compares it with the length
  truncated to 8 bits. For a list of length \<open>L \<ge> 256\<close> and a cursor that starts below
  \<open>max 1 (L mod 256)\<close> (a new endpoint starts at 0), every sequence of \<open>NextIP\<close> calls leaves
  the cursor below \<open>max 1 (L mod 256)\<close>, hence inside the list, so the addresses from index
  \<open>L mod 256\<close> on are never selected; when no call is suppressed, \<open>k\<close> calls move the cursor
  to \<open>(c + k) mod (L mod 256)\<close>, or leave it at 0 when \<open>L mod 256 \<le> 1\<close>.
\<close>

theorem C10_truncated_length_cycle:
  assumes "256 \<le> length (IPs r)"
    and "unat (ipIdx r) < max 1 (length (IPs r) mod 256)"
  shows "unat (uint8 (length (IPs r))) = length (IPs r) mod 256
     \<and> (\<exists>r'. run_ops r (map Rotate ts) = Inr r' \<and> IPs r' = IPs r
          \<and> unat (ipIdx r') < max 1 (length (IPs r) mod 256)
          \<and> unat (ipIdx r') < length (IPs r)
          \<and> currentIP r' = Inr (IPs r ! unat (ipIdx r'))
          \<and> (unsuppressed (lastSwitched r) ts \<longrightarrow>
               unat (ipIdx r') =
                 (if length (IPs r) mod 256 \<le> 1 then 0
                  else (unat (ipIdx r) + length ts) mod (length (IPs r) mod 256))))"
proof -
  have l: "1 < length (IPs r)"
    using assms(1) by simp
  from run_rotations_cycle [OF l assms(2), of ts] obtain r' where r':
    "run_ops r (map Rotate ts) = Inr r'" "IPs r' = IPs r"
    "unat (ipIdx r') < max 1 (length (IPs r) mod 256)"
    "unsuppressed (lastSwitched r) ts \<longrightarrow>
       unat (ipIdx r') =
         (if length (IPs r) mod 256 \<le> 1 then 0
          else (unat (ipIdx r) + length ts) mod (length (IPs r) mod 256))"
    by blast
  have "max 1 (length (IPs r) mod 256) \<le> length (IPs r)"
    using assms(1) by simp
  with r'(3) have inside: "unat (ipIdx r') < length (IPs r)"
    by simp
  then have "currentIP r' = Inr (IPs r ! unat (ipIdx r'))"
    using r'(2) by (auto simp: currentIP_def)
  with r' inside show ?thesis
    by (simp add: unat_uint8)
qed

theorem C10_truncated_length_cycle_witness:
  "(\<exists>r'. run_ops (endpoint_of (replicate 258 ip4_a))
            (map Rotate [5000000000, 10000000000, 15000000000]) = Inr r'
        \<and> length (IPs r') = 258 \<and> unat (ipIdx r') = 1)
   \<and> (\<exists>r'. run_ops (endpoint_of (replicate 256 ip4_a))
            (map Rotate [5000000000, 10000000000, 15000000000]) = Inr r'
        \<and> length (IPs r') = 256 \<and> unat (ipIdx r') = 0)"
  using C10_truncated_length_cycle [of "endpoint_of (replicate 258 ip4_a)"
      "[5000000000, 10000000000, 15000000000]"]
    C10_truncated_length_cycle [of "endpoint_of (replicate 256 ip4_a)"
      "[5000000000, 10000000000, 15000000000]"]
  by (auto simp: endpoint_of_def Sub_def Second_def maxDuration_def minDuration_def)

section \<open>The retry loop of PrepareDomain\<close>

lemma prepare_loop_frame:
  "resolveChan (fst (prepare_loop env closeFired name n tick d)) = resolveChan d
   \<and> currentServer (fst (prepare_loop env closeFired name n tick d)) = currentServer d
   \<and> preferIPv6 (fst (prepare_loop env closeFired name n tick d)) = preferIPv6 d"
  by (induction n arbitrary: tick) (simp_all add: split_beta Let_def split: sum.splits)

lemma prepare_loop_no_close:
  "EvCloseResolveChan \<notin> set (snd (prepare_loop env closeFired name n tick d))"
  by (induction n arbitrary: tick) (simp_all add: split_beta Let_def split: sum.splits)

lemma prepare_loop_store:
  "(EvStoreServer \<in> set (snd (prepare_loop env closeFired name n tick d)) \<longrightarrow>
      (\<exists>k r. lookupAddr env k d name = Inr r
         \<and> vServer (fst (prepare_loop env closeFired name n tick d)) = Some r))
   \<and> (EvStoreServer \<notin> set (snd (prepare_loop env closeFired name n tick d)) \<longrightarrow>
      vServer (fst (prepare_loop env closeFired name n tick d)) = vServer d)"
  by (induction n arbitrary: tick) (auto simp: split_beta Let_def split: sum.splits)

lemma prepare_loop_store_last:
  "EvStoreServer \<in> set (snd (prepare_loop env closeFired name n tick d)) \<Longrightarrow>
   last (snd (prepare_loop env closeFired name n tick d)) = EvStoreServer
   \<and> count_list (snd (prepare_loop env closeFired name n tick d)) EvStoreServer = 1"
  by (induction n arbitrary: tick) (auto simp: split_beta Let_def split: sum.splits if_splits)

lemma isl_lookupAddr_dialer:
  "isl (lookupAddr env k d a) = isl (lookupAddr env k d' a)"
  by (auto simp: lookupAddr_def Let_def split: sum.splits)

lemma prepare_loop_all_fail:
  assumes "\<forall>k. isl (lookupAddr env k d name)" and "\<forall>k. \<not> closeFired k"
  shows "prepare_loop env closeFired name n tick d =
     (d, concat (replicate n [EvLookupAddr name, EvSelect]))"
proof (induction n arbitrary: tick)
  case 0
  show ?case by simp
next
  case (Suc n)
  from assms(1) obtain e where "lookupAddr env tick d name = Inl e"
    by (metis isl_def)
  with Suc assms(2) show ?case by simp
qed

lemma count_list_pairs:
  "a \<noteq> b \<Longrightarrow> count_list (concat (replicate n [a, b])) a = n"
  by (induction n) simp_all

lemma set_pairs: "set (concat (replicate n [a, b])) \<subseteq> {a, b}"
  by (induction n) auto

lemma NextIP_total: "\<exists>r'. NextIP r now = Inr r'"
proof (cases "length (IPs r) > 1 \<and> Second * 5 \<le> Sub now (lastSwitched r)")
  case True
  then show ?thesis using NextIP_advance [of r now] by simp
next
  case False
  then have "NextIP r now = Inr r"
    using NextIP_throttled [of now r] NextIP_short [of r now] by (cases "length (IPs r) > 1") auto
  then show ?thesis by simp
qed

lemma fdConn_no_rotation: "EvNextIP \<notin> set (snd (fdConn sys ip port fd))"
  by (simp add: fdConn_def Let_def split: option.splits sum.splits)

lemma fdConn_one_protect: "count_list (snd (fdConn sys ip port fd)) (EvProtect fd) = 1"
  by (simp add: fdConn_def Let_def split: option.splits sum.splits)

section \<open>Preparation fires the readiness signal once, last\<close>

lemma Dial_not_blocked_when_closed:
  "resolveChan d = ChanClosed \<Longrightarrow> fst (Dial env sys tick now d dest) \<noteq> Blocked"
  by (auto simp: Dial_def Dial_resumed_def Dial_connect_def Let_def
      split: option.splits sum.splits prod.splits list.splits)

text \<open>
  Claim C5: a run of \<open>PrepareDomain\<close> on a dialer whose readiness channel was made by
  \<open>PrepareResolveChan\<close> always returns; its trace is the trace of the retry loop followed by
  the one close of the channel, so the close happens exactly once and after a store of the
  endpoint if there is one; the loop ends with the store of a resolved endpoint, or with the
  endpoint as it was (cancelled or out of retries); the channel is closed in the final
  state, and no later \<open>Dial\<close> blocks on it.
\<close>

theorem C5_readiness_fired_once_last:
  "\<exists>d' tr. PrepareDomain env closeFired (PrepareResolveChan d) domainName prefIPv6
        = Inr (d', tr @ [EvCloseResolveChan])
     \<and> EvCloseResolveChan \<notin> set tr
     \<and> count_list (tr @ [EvCloseResolveChan]) EvCloseResolveChan = 1
     \<and> (EvStoreServer \<in> set tr \<longrightarrow>
          last tr = EvStoreServer \<and> count_list tr EvStoreServer = 1 \<and> vServer d' \<noteq> None)
     \<and> (EvStoreServer \<notin> set tr \<longrightarrow> vServer d' = vServer d)
     \<and> resolveChan d' = ChanClosed
     \<and> (\<forall>env' sys tick now dest. fst (Dial env' sys tick now d' dest) \<noteq> Blocked)"
proof -
  define d1 where "d1 = (PrepareResolveChan d)\<lparr>currentServer := domainName, preferIPv6 := prefIPv6\<rparr>"
  define d2 where "d2 = fst (prepare_loop env closeFired domainName 10 0 d1)"
  define tr where "tr = snd (prepare_loop env closeFired domainName 10 0 d1)"
  define d' where "d' = d2\<lparr>resolveChan := ChanClosed\<rparr>"
  have run: "PrepareDomain env closeFired (PrepareResolveChan d) domainName prefIPv6
               = Inr (d', tr @ [EvCloseResolveChan])"
    by (simp add: PrepareDomain_def PrepareResolveChan_def Let_def split_beta d'_def d2_def
        tr_def d1_def)
  have no_close: "EvCloseResolveChan \<notin> set tr"
    unfolding tr_def by (rule prepare_loop_no_close)
  then have once: "count_list (tr @ [EvCloseResolveChan]) EvCloseResolveChan = 1"
    by (simp add: count_list_0_iff)
  have stored: "last tr = EvStoreServer \<and> count_list tr EvStoreServer = 1 \<and> vServer d' \<noteq> None"
    if "EvStoreServer \<in> set tr"
    using that prepare_loop_store_last [of env closeFired domainName 10 0 d1]
      prepare_loop_store [of env closeFired domainName 10 0 d1]
    by (auto simp: tr_def d'_def d2_def)
  have kept: "vServer d' = vServer d" if "EvStoreServer \<notin> set tr"
    using that prepare_loop_store [of env closeFired domainName 10 0 d1]
    by (simp add: tr_def d'_def d2_def d1_def PrepareResolveChan_def)
  have closed: "resolveChan d' = ChanClosed"
    by (simp add: d'_def)
  have "\<forall>env' sys tick now dest. fst (Dial env' sys tick now d' dest) \<noteq> Blocked"
    using Dial_not_blocked_when_closed [OF closed] by blast
  with run no_close once stored kept closed show ?thesis
    by blast
qed

theorem C5_readiness_fired_once_last_witness:
  "PrepareDomain (late_env 3) (\<lambda>k. False) (PrepareResolveChan fresh_dialer) ''proxy.example:443'' False
     = Inr (\<lparr>currentServer = ''proxy.example:443'', resolveChan = ChanClosed, preferIPv6 = False,
             vServer = Some (endpoint_of [ip4_a])\<rparr>,
            [EvLookupAddr ''proxy.example:443'', EvSelect,
             EvLookupAddr ''proxy.example:443'', EvSelect,
             EvLookupAddr ''proxy.example:443'', EvSelect,
             EvLookupAddr ''proxy.example:443'', EvStoreServer] @ [EvCloseResolveChan])
   \<and> PrepareDomain failing_env (\<lambda>k. k = 2) (PrepareResolveChan fresh_dialer) ''proxy.example:443'' False
     = Inr (\<lparr>currentServer = ''proxy.example:443'', resolveChan = ChanClosed, preferIPv6 = False,
             vServer = None\<rparr>,
            [EvLookupAddr ''proxy.example:443'', EvSelect,
             EvLookupAddr ''proxy.example:443'', EvSelect,
             EvLookupAddr ''proxy.example:443'', EvSelect] @ [EvCloseResolveChan])"
  using C5_readiness_fired_once_last [of "late_env 3" "\<lambda>k. False" fresh_dialer "''proxy.example:443''" False]
    C5_readiness_fired_once_last [of failing_env "\<lambda>k. k = 2" fresh_dialer "''proxy.example:443''" False]
  by (simp add: PrepareDomain_def PrepareResolveChan_def fresh_dialer_def late_env_def
      failing_env_def lookupAddr_def endpoint_of_def Let_def eval_nat_numeral)

lemma PrepareDomain_without_channel:
  "resolveChan d = ChanNil \<Longrightarrow>
     PrepareDomain env closeFired d domainName prefIPv6 = Inl CloseOfNilChannel"
  "resolveChan d = ChanClosed \<Longrightarrow>
     PrepareDomain env closeFired d domainName prefIPv6 = Inl CloseOfClosedChannel"
  by (simp_all add: PrepareDomain_def Let_def split_beta)

text \<open>
  Claim C6: when every resolution fails and the cancel signal never fires,
  \<open>PrepareDomain\<close> returns after exactly 10 resolution attempts (each followed by its wait),
  stores no endpoint, and closes the readiness channel once, as its last step.
\<close>

theorem C6_retry_bound:
  assumes "\<forall>k. isl (lookupAddr env k d domainName)"
    and "\<forall>k. \<not> closeFired k"
  shows "\<exists>d' tr. PrepareDomain env closeFired (PrepareResolveChan d) domainName prefIPv6 = Inr (d', tr)
     \<and> tr = concat (replicate 10 [EvLookupAddr domainName, EvSelect]) @ [EvCloseResolveChan]
     \<and> count_list tr (EvLookupAddr domainName) = 10
     \<and> count_list tr EvCloseResolveChan = 1
     \<and> EvStoreServer \<notin> set tr
     \<and> vServer d' = vServer d
     \<and> resolveChan d' = ChanClosed"
proof -
  define d1 where "d1 = (PrepareResolveChan d)\<lparr>currentServer := domainName, preferIPv6 := prefIPv6\<rparr>"
  let ?loop = "concat (replicate 10 [EvLookupAddr domainName, EvSelect])"
  have "\<forall>k. isl (lookupAddr env k d1 domainName)"
    using assms(1) isl_lookupAddr_dialer [of env _ d1 domainName d] by simp
  then have loop: "prepare_loop env closeFired domainName 10 0 d1 = (d1, ?loop)"
    using assms(2) by (rule prepare_loop_all_fail)
  have run: "PrepareDomain env closeFired (PrepareResolveChan d) domainName prefIPv6
               = Inr (d1\<lparr>resolveChan := ChanClosed\<rparr>, ?loop @ [EvCloseResolveChan])"
    using loop by (simp add: PrepareDomain_def PrepareResolveChan_def Let_def d1_def)
  have sub: "set ?loop \<subseteq> {EvLookupAddr domainName, EvSelect}"
    by (rule set_pairs)
  have c1: "count_list (?loop @ [EvCloseResolveChan]) (EvLookupAddr domainName) = 10"
    by (simp add: count_list_pairs)
  have "EvCloseResolveChan \<notin> set ?loop"
    using sub by auto
  then have c2: "count_list (?loop @ [EvCloseResolveChan]) EvCloseResolveChan = 1"
    by (simp add: count_list_0_iff)
  have c3: "EvStoreServer \<notin> set (?loop @ [EvCloseResolveChan])"
    using sub by auto
  have c4: "vServer (d1\<lparr>resolveChan := ChanClosed\<rparr>) = vServer d"
    by (simp add: d1_def PrepareResolveChan_def)
  show ?thesis
    using run c1 c2 c3 c4 by simp
qed

theorem C6_retry_bound_witness:
  "\<exists>d'. PrepareDomain failing_env (\<lambda>k. False) (PrepareResolveChan fresh_dialer)
            ''proxy.example:443'' False
          = Inr (d', concat (replicate 10 [EvLookupAddr ''proxy.example:443'', EvSelect])
                     @ [EvCloseResolveChan])
      \<and> vServer d' = None \<and> resolveChan d' = ChanClosed"
proof -
  have fails: "\<forall>k. isl (lookupAddr failing_env k fresh_dialer ''proxy.example:443'')"
    by (simp add: lookupAddr_def failing_env_def)
  have quiet: "\<forall>k. \<not> (\<lambda>k. False) k"
    by simp
  show ?thesis
    using C6_retry_bound [OF fails quiet, of False] by (auto simp: fresh_dialer_def)
qed

section \<open>Dial on the prepared target\<close>

lemma Dial_getFd_failure:
  assumes "NetAddr dest = currentServer d" and "vServer d = Some r"
    and "getFd sys (Network dest) = Inl err"
  shows "Dial env sys tick now d dest = (Returned (Inl err), d, [EvGetFd (Network dest)])"
  using assms by (simp add: Dial_def Dial_connect_def)

lemma Dial_fdConn_outcomes:
  assumes "NetAddr dest = currentServer d" and "vServer d = Some r"
    and "getFd sys (Network dest) = Inr fd" and "currentIP r = Inr ip"
  shows "(fdConn sys ip (Port r) fd = (Inl err, tr) \<longrightarrow>
       (\<exists>r'. NextIP r now = Inr r'
          \<and> Dial env sys tick now d dest =
              (Returned (Inl err), d\<lparr>vServer := Some r'\<rparr>,
               [EvGetFd (Network dest), EvCurrentIP] @ tr @ [EvNextIP])
          \<and> count_list ([EvGetFd (Network dest), EvCurrentIP] @ tr @ [EvNextIP]) EvNextIP = 1
          \<and> count_list ([EvGetFd (Network dest), EvCurrentIP] @ tr @ [EvNextIP]) (EvProtect fd) = 1))
     \<and> (fdConn sys ip (Port r) fd = (Inr conn, tr) \<longrightarrow>
          Dial env sys tick now d dest =
            (Returned (Inr conn), d, [EvGetFd (Network dest), EvCurrentIP] @ tr)
          \<and> EvNextIP \<notin> set ([EvGetFd (Network dest), EvCurrentIP] @ tr))"
proof (intro conjI impI)
  assume f: "fdConn sys ip (Port r) fd = (Inl err, tr)"
  obtain r' where r': "NextIP r now = Inr r'"
    using NextIP_total by blast
  have tr: "EvNextIP \<notin> set tr" "count_list tr (EvProtect fd) = 1"
    using fdConn_no_rotation [of sys ip "Port r" fd] fdConn_one_protect [of sys ip "Port r" fd] f
    by simp_all
  have "Dial env sys tick now d dest =
      (Returned (Inl err), d\<lparr>vServer := Some r'\<rparr>,
       [EvGetFd (Network dest), EvCurrentIP] @ tr @ [EvNextIP])"
    using assms f r' by (simp add: Dial_def Dial_connect_def)
  with r' tr show "\<exists>r'. NextIP r now = Inr r'
          \<and> Dial env sys tick now d dest =
              (Returned (Inl err), d\<lparr>vServer := Some r'\<rparr>,
               [EvGetFd (Network dest), EvCurrentIP] @ tr @ [EvNextIP])
          \<and> count_list ([EvGetFd (Network dest), EvCurrentIP] @ tr @ [EvNextIP]) EvNextIP = 1
          \<and> count_list ([EvGetFd (Network dest), EvCurrentIP] @ tr @ [EvNextIP]) (EvProtect fd) = 1"
    by (simp add: count_list_0_iff)
next
  assume f: "fdConn sys ip (Port r) fd = (Inr conn, tr)"
  show "Dial env sys tick now d dest =
            (Returned (Inr conn), d, [EvGetFd (Network dest), EvCurrentIP] @ tr)"
    using assms f by (simp add: Dial_def Dial_connect_def)
  show "EvNextIP \<notin> set ([EvGetFd (Network dest), EvCurrentIP] @ tr)"
    using fdConn_no_rotation [of sys ip "Port r" fd] f by simp
qed

text \<open>
  Claim C7, as it is written, fails: the connection attempt on the stored endpoint begins
  with the allocation of the socket, and when that fails \<open>Dial\<close> returns the error at once.
  No \<open>NextIP\<close> is called: the trace is the one \<open>getFd\<close> call and the dialer is unchanged,
  although a rotation at that time would have moved the cursor.
\<close>

theorem C7_counterexample:
  "NetAddr target_dest = currentServer prepared_dialer
   \<and> vServer prepared_dialer = Some (endpoint_of [ip4_a, ip6_a])
   \<and> getFd sys_no_socket (Network target_dest) = Inl (Error ''too many open files'')
   \<and> Dial failing_env sys_no_socket 0 10000000000 prepared_dialer target_dest
       = (Returned (Inl (Error ''too many open files'')), prepared_dialer, [EvGetFd Network_TCP])
   \<and> NextIP (endpoint_of [ip4_a, ip6_a]) 10000000000 = Inr rotated_once
   \<and> ipIdx rotated_once \<noteq> ipIdx (endpoint_of [ip4_a, ip6_a])"
  by (simp add: Dial_def Dial_connect_def getFd_def sys_no_socket_def target_dest_def
      prepared_dialer_def NextIP_def endpoint_of_def rotated_once_def Sub_def Second_def
      maxDuration_def minDuration_def uint8_def Let_def word_le_nat_alt)

text \<open>
  Claim C7, amended: \<open>Dial\<close> to the cached target with an endpoint stored. If no socket
  can be allocated (\<open>getFd\<close> fails), \<open>Dial\<close> returns that error unchanged, without a retry
  and without touching the rotation state. If the socket is obtained and \<open>fdConn\<close> fails,
  \<open>Dial\<close> returns that very error, the stored endpoint is the result of one \<open>NextIP\<close> call,
  and the trace holds one \<open>NextIP\<close> and one attempt (one \<open>Protect\<close> of the socket). If
  \<open>fdConn\<close> succeeds, \<open>Dial\<close> returns its connection, the dialer is unchanged and the trace
  holds no \<open>NextIP\<close>.
\<close>

theorem C7_failure_rotates_once:
  assumes "NetAddr dest = currentServer d" and "vServer d = Some r"
  shows "(getFd sys (Network dest) = Inl err0 \<longrightarrow>
          Dial env sys tick now d dest = (Returned (Inl err0), d, [EvGetFd (Network dest)])
          \<and> EvNextIP \<notin> set [EvGetFd (Network dest)])
     \<and> (getFd sys (Network dest) = Inr fd \<and> currentIP r = Inr ip
          \<and> fdConn sys ip (Port r) fd = (Inl err, tr) \<longrightarrow>
       (\<exists>r'. NextIP r now = Inr r'
          \<and> Dial env sys tick now d dest =
              (Returned (Inl err), d\<lparr>vServer := Some r'\<rparr>,
               [EvGetFd (Network dest), EvCurrentIP] @ tr @ [EvNextIP])
          \<and> count_list ([EvGetFd (Network dest), EvCurrentIP] @ tr @ [EvNextIP]) EvNextIP = 1
          \<and> count_list ([EvGetFd (Network dest), EvCurrentIP] @ tr @ [EvNextIP]) (EvProtect fd) = 1))
     \<and> (getFd sys (Network dest) = Inr fd \<and> currentIP r = Inr ip
          \<and> fdConn sys ip (Port r) fd = (Inr conn, tr) \<longrightarrow>
          Dial env sys tick now d dest =
            (Returned (Inr conn), d, [EvGetFd (Network dest), EvCurrentIP] @ tr)
          \<and> EvNextIP \<notin> set ([EvGetFd (Network dest), EvCurrentIP] @ tr))"
proof (intro conjI)
  show "getFd sys (Network dest) = Inl err0 \<longrightarrow>
          Dial env sys tick now d dest = (Returned (Inl err0), d, [EvGetFd (Network dest)])
          \<and> EvNextIP \<notin> set [EvGetFd (Network dest)]"
    using Dial_getFd_failure [OF assms] by simp
next
  show "getFd sys (Network dest) = Inr fd \<and> currentIP r = Inr ip
          \<and> fdConn sys ip (Port r) fd = (Inl err, tr) \<longrightarrow>
       (\<exists>r'. NextIP r now = Inr r'
          \<and> Dial env sys tick now d dest =
              (Returned (Inl err), d\<lparr>vServer := Some r'\<rparr>,
               [EvGetFd (Network dest), EvCurrentIP] @ tr @ [EvNextIP])
          \<and> count_list ([EvGetFd (Network dest), EvCurrentIP] @ tr @ [EvNextIP]) EvNextIP = 1
          \<and> count_list ([EvGetFd (Network dest), EvCurrentIP] @ tr @ [EvNextIP]) (EvProtect fd) = 1)"
    using Dial_fdConn_outcomes [OF assms, where fd = fd and ip = ip and err = err and tr = tr
        and env = env and tick = tick and now = now]
    by blast
next
  show "getFd sys (Network dest) = Inr fd \<and> currentIP r = Inr ip
          \<and> fdConn sys ip (Port r) fd = (Inr conn, tr) \<longrightarrow>
          Dial env sys tick now d dest =
            (Returned (Inr conn), d, [EvGetFd (Network dest), EvCurrentIP] @ tr)
          \<and> EvNextIP \<notin> set ([EvGetFd (Network dest), EvCurrentIP] @ tr)"
    using Dial_fdConn_outcomes [OF assms, where fd = fd and ip = ip and conn = conn and tr = tr
        and env = env and tick = tick and now = now]
    by blast
qed

theorem C7_failure_rotates_once_witness:
  "Dial failing_env sys_no_socket 0 10000000000 prepared_dialer target_dest
     = (Returned (Inl (Error ''too many open files'')), prepared_dialer, [EvGetFd Network_TCP])
   \<and> Dial failing_env (sys_of True False) 0 10000000000 prepared_dialer target_dest
     = (Returned (Inl (Error ''connection refused'')),
        prepared_dialer\<lparr>vServer := Some rotated_once\<rparr>,
        [EvGetFd Network_TCP, EvCurrentIP, EvProtect 7,
         EvConnect 7 \<lparr>sa_Port = 443, sa_Addr = copy_Addr ip4_a\<rparr>, EvCloseFd 7, EvNextIP])
   \<and> Dial failing_env (sys_of True True) 0 10000000000 prepared_dialer target_dest
     = (Returned (Inr (Conn 7)), prepared_dialer,
        [EvGetFd Network_TCP, EvCurrentIP, EvProtect 7,
         EvConnect 7 \<lparr>sa_Port = 443, sa_Addr = copy_Addr ip4_a\<rparr>, EvNewFile 7,
         EvFileConn (File 7 ''Socket''), EvFileClose (File 7 ''Socket''), EvCloseFd 7])"
proof -
  have a: "NetAddr target_dest = currentServer prepared_dialer"
    by (simp add: target_dest_def prepared_dialer_def)
  have b: "vServer prepared_dialer = Some (endpoint_of [ip4_a, ip6_a])"
    by (simp add: prepared_dialer_def)
  have c0: "getFd sys_no_socket (Network target_dest) = Inl (Error ''too many open files'')"
    by (simp add: getFd_def sys_no_socket_def target_dest_def)
  have c: "getFd (sys_of p q) (Network target_dest) = Inr 7" for p q
    by (simp add: getFd_def sys_of_def target_dest_def)
  have e: "currentIP (endpoint_of [ip4_a, ip6_a]) = Inr ip4_a"
    by (simp add: currentIP_def endpoint_of_def)
  have f1: "fdConn (sys_of True False) ip4_a (Port (endpoint_of [ip4_a, ip6_a])) 7
      = (Inl (Error ''connection refused''),
         [EvProtect 7, EvConnect 7 \<lparr>sa_Port = 443, sa_Addr = copy_Addr ip4_a\<rparr>, EvCloseFd 7])"
    by (simp add: fdConn_def sys_of_def endpoint_of_def)
  have f2: "fdConn (sys_of True True) ip4_a (Port (endpoint_of [ip4_a, ip6_a])) 7
      = (Inr (Conn 7),
         [EvProtect 7, EvConnect 7 \<lparr>sa_Port = 443, sa_Addr = copy_Addr ip4_a\<rparr>, EvNewFile 7,
          EvFileConn (File 7 ''Socket''), EvFileClose (File 7 ''Socket''), EvCloseFd 7])"
    by (simp add: fdConn_def sys_of_def endpoint_of_def)
  have n: "NextIP (endpoint_of [ip4_a, ip6_a]) 10000000000 = Inr rotated_once"
    by (simp add: NextIP_def endpoint_of_def rotated_once_def Sub_def Second_def maxDuration_def
        minDuration_def uint8_def Let_def word_le_nat_alt)
  show ?thesis
    using C7_failure_rotates_once [where err0 = "Error ''too many open files''"
        and now = 10000000000 and env = failing_env and tick = 0 and sys = sys_no_socket,
        OF a b]
      C7_failure_rotates_once [where err = "Error ''connection refused''"
        and tr = "[EvProtect 7, EvConnect 7 \<lparr>sa_Port = 443, sa_Addr = copy_Addr ip4_a\<rparr>, EvCloseFd 7]"
        and fd = 7 and ip = ip4_a
        and now = 10000000000 and env = failing_env and tick = 0 and sys = "sys_of True False",
        OF a b]
      C7_failure_rotates_once [where conn = "Conn 7"
        and tr = "[EvProtect 7, EvConnect 7 \<lparr>sa_Port = 443, sa_Addr = copy_Addr ip4_a\<rparr>, EvNewFile 7,
          EvFileConn (File 7 ''Socket''), EvFileClose (File 7 ''Socket''), EvCloseFd 7]"
        and fd = 7 and ip = ip4_a
        and now = 10000000000 and env = failing_env and tick = 0 and sys = "sys_of True True",
        OF a b]
      c0 c e f1 f2 n
    by (simp add: target_dest_def)
qed

text \<open>
  Claim C8: \<open>Dial\<close> to the cached target with no endpoint stored is suspended on the
  readiness channel as long as the channel is not closed; when the call goes on past the
  receive (at once if the channel is already closed, or resumed in a later state) and the
  endpoint is still absent, it returns the error "fail to prepare domain" and no
  connection, and does nothing else.
\<close>

theorem C8_wait_then_fail:
  assumes "NetAddr dest = currentServer d" and "vServer d = None"
  shows "(resolveChan d \<noteq> ChanClosed \<longrightarrow> Dial env sys tick now d dest = (Blocked, d, []))
     \<and> (resolveChan d = ChanClosed \<longrightarrow>
          Dial env sys tick now d dest =
            (Returned (Inl (Error (''fail to prepare domain '' @ currentServer d))), d, []))
     \<and> (vServer d' = None \<longrightarrow>
          Dial_resumed sys now d' dest =
            (Returned (Inl (Error (''fail to prepare domain '' @ currentServer d'))), d', []))"
  using assms by (simp add: Dial_def Dial_resumed_def)

theorem C8_wait_then_fail_witness:
  "Dial failing_env (sys_of True True) 0 0
       (fresh_dialer\<lparr>currentServer := ''proxy.example:443'', resolveChan := ChanOpen\<rparr>) target_dest
     = (Blocked, fresh_dialer\<lparr>currentServer := ''proxy.example:443'', resolveChan := ChanOpen\<rparr>, [])
   \<and> Dial_resumed (sys_of True True) 0
       (fresh_dialer\<lparr>currentServer := ''proxy.example:443'', resolveChan := ChanClosed\<rparr>) target_dest
     = (Returned (Inl (Error ''fail to prepare domain proxy.example:443'')),
        fresh_dialer\<lparr>currentServer := ''proxy.example:443'', resolveChan := ChanClosed\<rparr>, [])"
  using C8_wait_then_fail [of target_dest
      "fresh_dialer\<lparr>currentServer := ''proxy.example:443'', resolveChan := ChanOpen\<rparr>"
      failing_env "sys_of True True" 0 0
      "fresh_dialer\<lparr>currentServer := ''proxy.example:443'', resolveChan := ChanClosed\<rparr>"]
  by (simp add: fresh_dialer_def target_dest_def)

section \<open>fdConn when protection is refused\<close>

text \<open>
  Claim C9: when \<open>Protect\<close> returns false for the descriptor, \<open>fdConn\<close> returns the error
  "fail to protect" and no connection; all it does is call \<open>Protect\<close> and close the
  descriptor: no connect is attempted.
\<close>

theorem C9_protect_refused:
  assumes "\<not> Protect sys fd"
  shows "fdConn sys ip port fd = (Inl (Error ''fail to protect''), [EvProtect fd, EvCloseFd fd])
     \<and> EvCloseFd fd \<in> set (snd (fdConn sys ip port fd))
     \<and> (\<forall>fd' sa. EvConnect fd' sa \<notin> set (snd (fdConn sys ip port fd)))"
  using assms by (simp add: fdConn_def)

theorem C9_protect_refused_witness:
  "fdConn (sys_of False True) ip4_a 443 7
     = (Inl (Error ''fail to protect''), [EvProtect 7, EvCloseFd 7])"
  using C9_protect_refused [of "sys_of False True" 7 ip4_a 443]
  by (simp add: sys_of_def)

end
